theory Spec2Isabelle
  imports Complex_Main
begin

section \<open>Python values\<close>

text \<open>
  The program is \<^verbatim>\<open>vault-cli.py\<close>: a client of the Obsidian Local REST API. Its
  values are Python strings, dictionaries and decoded JSON documents.

  A Python \<^verbatim>\<open>str\<close> is a \<open>string\<close>: one \<open>char\<close> stands for one character of the
  text (a code point up to U+00FF), so \<open>length\<close> is Python's \<^verbatim>\<open>len\<close>.
\<close>

text \<open>
  A \<^verbatim>\<open>dict\<close> with string keys keeps its keys in insertion order: an association
  list. \<^verbatim>\<open>d[k] = v\<close> overwrites in place or appends; \<^verbatim>\<open>d.pop(k, None)\<close> removes.
  The keys of a Python dictionary are distinct; no fact below needs that.
\<close>

type_synonym 'v dict = "(string \<times> 'v) list"

definition dict_get :: "'v dict \<Rightarrow> string \<Rightarrow> 'v option" where
  "dict_get d k = map_of d k"

definition dict_get_default :: "'v dict \<Rightarrow> string \<Rightarrow> 'v \<Rightarrow> 'v" where
  "dict_get_default d k dflt = (case map_of d k of Some v \<Rightarrow> v | None \<Rightarrow> dflt)"

definition has_key :: "'v dict \<Rightarrow> string \<Rightarrow> bool" where
  "has_key d k = (map_of d k \<noteq> None)"

fun dict_set :: "'v dict \<Rightarrow> string \<Rightarrow> 'v \<Rightarrow> 'v dict" where
  "dict_set [] k v = [(k, v)]"
| "dict_set ((k', v') # d) k v = (if k' = k then (k, v) # d else (k', v') # dict_set d k v)"

definition dict_pop :: "'v dict \<Rightarrow> string \<Rightarrow> 'v dict" where
  "dict_pop d k = filter (\<lambda>kv. fst kv \<noteq> k) d"

fun dict_update :: "'v dict \<Rightarrow> 'v dict \<Rightarrow> 'v dict" where
  "dict_update d [] = d"
| "dict_update d ((k, v) # more) = dict_update (dict_set d k v) more"

text \<open>
  What \<^verbatim>\<open>json.loads\<close> returns. A float is carried through and never computed
  with; only whether it is zero is ever looked at.
\<close>

datatype json =
    JNull
  | JBool bool
  | JInt int
  | JFloat rat
  | JStr string
  | JList "json list"
  | JObj "(string \<times> json) list"

text \<open>Python's truth value of an object, as \<^verbatim>\<open>if x:\<close> reads it.\<close>

fun truthy :: "json \<Rightarrow> bool" where
  "truthy JNull = False"
| "truthy (JBool b) = b"
| "truthy (JInt i) = (i \<noteq> 0)"
| "truthy (JFloat r) = (r \<noteq> 0)"
| "truthy (JStr s) = (s \<noteq> [])"
| "truthy (JList xs) = (xs \<noteq> [])"
| "truthy (JObj d) = (d \<noteq> [])"

text \<open>The exceptions the program can meet; \<open>Inl\<close> of one is a raise.\<close>

datatype exn = UnicodeDecodeError | ValueError | TypeError | AttributeError | KeyError | OSError

text \<open>
  \<^verbatim>\<open>except ValueError\<close> also catches \<^verbatim>\<open>UnicodeDecodeError\<close>, a subclass.
\<close>

fun is_ValueError :: "exn \<Rightarrow> bool" where
  "is_ValueError UnicodeDecodeError = True"
| "is_ValueError ValueError = True"
| "is_ValueError _ = False"

fun map_exn :: "('a \<Rightarrow> exn + 'b) \<Rightarrow> 'a list \<Rightarrow> exn + 'b list" where
  "map_exn f [] = Inr []"
| "map_exn f (x # xs) =
     (case f x of
        Inl e \<Rightarrow> Inl e
      | Inr y \<Rightarrow> (case map_exn f xs of Inl e \<Rightarrow> Inl e | Inr ys \<Rightarrow> Inr (y # ys)))"

text \<open>
  The slice \<^verbatim>\<open>xs[:n]\<close>: a negative \<open>n\<close> counts from the end.
\<close>

definition py_slice_to :: "int \<Rightarrow> 'a list \<Rightarrow> 'a list" where
  "py_slice_to n xs =
     (if 0 \<le> n then take (nat n) xs else take (length xs - nat (- n)) xs)"

text \<open>\<^verbatim>\<open>s.rstrip('/')\<close>\<close>

definition rstrip_slash :: "string \<Rightarrow> string" where
  "rstrip_slash s = rev (dropWhile (\<lambda>c. c = CHR ''/'') (rev s))"

text \<open>\<^verbatim>\<open>str(n)\<close> of an integer, as an f-string formats it.\<close>

definition digit_char :: "nat \<Rightarrow> char" where
  "digit_char d = ''0123456789'' ! d"

fun str_nat :: "nat \<Rightarrow> string" where
  "str_nat n =
     (if n < 10 then [digit_char n] else str_nat (n div 10) @ [digit_char (n mod 10)])"

definition str_int :: "int \<Rightarrow> string" where
  "str_int i = (if i < 0 then CHR ''-'' # str_nat (nat (- i)) else str_nat (nat i))"

section \<open>Library functions the client calls\<close>

subsection \<open>\<^verbatim>\<open>urllib.parse.quote(s, safe='')\<close>\<close>

text \<open>
  \<^verbatim>\<open>quote\<close> encodes the text as UTF-8 and writes every byte outside the always-safe
  set (letters, digits and \<^verbatim>\<open>_.-~\<close>) as \<^verbatim>\<open>%XX\<close> in upper-case hexadecimal. With
  \<^verbatim>\<open>safe=''\<close> the slash is not exempt.
\<close>

definition always_safe :: "char \<Rightarrow> bool" where
  "always_safe c =
     (c \<in> set ''ABCDEFGHIJKLMNOPQRSTUVWXYZabcdefghijklmnopqrstuvwxyz0123456789_.-~'')"

definition hex_digit :: "nat \<Rightarrow> char" where
  "hex_digit d = ''0123456789ABCDEF'' ! d"

definition percent_byte :: "nat \<Rightarrow> string" where
  "percent_byte b = [CHR ''%'', hex_digit (b div 16), hex_digit (b mod 16)]"

definition utf8_encode_char :: "char \<Rightarrow> nat list" where
  "utf8_encode_char c =
     (let n = of_char c in if n < 128 then [n] else [192 + n div 64, 128 + n mod 64])"

definition quote_char :: "char \<Rightarrow> string" where
  "quote_char c =
     (if always_safe c then [c] else concat (map percent_byte (utf8_encode_char c)))"

definition quote :: "string \<Rightarrow> string" where
  "quote s = concat (map quote_char s)"

text \<open>
  \<^verbatim>\<open>urllib.parse.urlencode\<close> quotes each key and value with \<^verbatim>\<open>quote_plus\<close>:
  a space becomes \<^verbatim>\<open>+\<close>, everything else as \<^verbatim>\<open>quote\<close> with no safe characters.
\<close>

definition quote_plus :: "string \<Rightarrow> string" where
  "quote_plus s = concat (map (\<lambda>c. if c = CHR '' '' then ''+'' else quote_char c) s)"

fun urlencode :: "(string \<times> string) list \<Rightarrow> string" where
  "urlencode [] = []"
| "urlencode [(k, v)] = quote_plus k @ ''='' @ quote_plus v"
| "urlencode ((k, v) # more) = quote_plus k @ ''='' @ quote_plus v @ ''&'' @ urlencode more"

subsection \<open>\<^verbatim>\<open>datetime.strptime(s, '%Y-%m-%d')\<close>\<close>

text \<open>
  The parser matches the text against
  \<^verbatim>\<open>(\d\d\d\d)-(1[0-2]|0[1-9]|[1-9])-(3[0-1]|[1-2]\d|0[1-9]|[1-9]| [1-9])\<close>,
  refuses text left over after the match, and then builds the date, which refuses a
  year below 1 and a day the month does not have. \<open>None\<close> is its \<^verbatim>\<open>ValueError\<close>.
\<close>

definition is_digit :: "char \<Rightarrow> bool" where
  "is_digit c = (c \<in> set ''0123456789'')"

definition is_digit19 :: "char \<Rightarrow> bool" where
  "is_digit19 c = (c \<in> set ''123456789'')"

definition digit_val :: "char \<Rightarrow> nat" where
  "digit_val c = of_char c - 48"

definition parse_year :: "string \<Rightarrow> (nat \<times> string) option" where
  "parse_year s =
     (case s of
        a # b # c # d # e # rest \<Rightarrow>
          if is_digit a \<and> is_digit b \<and> is_digit c \<and> is_digit d \<and> e = CHR ''-''
          then Some (1000 * digit_val a + 100 * digit_val b + 10 * digit_val c + digit_val d, rest)
          else None
      | _ \<Rightarrow> None)"

definition parse_month2 :: "string \<Rightarrow> (nat \<times> string) option" where
  "parse_month2 s =
     (case s of
        a # b # c # rest \<Rightarrow>
          if a = CHR ''1'' \<and> b \<in> set ''012'' \<and> c = CHR ''-''
          then Some (10 + digit_val b, rest)
          else if a = CHR ''0'' \<and> is_digit19 b \<and> c = CHR ''-''
          then Some (digit_val b, rest)
          else None
      | _ \<Rightarrow> None)"

definition parse_month1 :: "string \<Rightarrow> (nat \<times> string) option" where
  "parse_month1 s =
     (case s of
        a # b # rest \<Rightarrow>
          if is_digit19 a \<and> b = CHR ''-'' then Some (digit_val a, rest) else None
      | _ \<Rightarrow> None)"

definition parse_month :: "string \<Rightarrow> (nat \<times> string) option" where
  "parse_month s = (case parse_month2 s of Some r \<Rightarrow> Some r | None \<Rightarrow> parse_month1 s)"

definition parse_day :: "string \<Rightarrow> nat option" where
  "parse_day s =
     (case s of
        [a] \<Rightarrow> if is_digit19 a then Some (digit_val a) else None
      | [a, b] \<Rightarrow>
          if a = CHR ''3'' \<and> b \<in> set ''01'' then Some (30 + digit_val b)
          else if a \<in> set ''12'' \<and> is_digit b then Some (10 * digit_val a + digit_val b)
          else if a = CHR ''0'' \<and> is_digit19 b then Some (digit_val b)
          else if a = CHR '' '' \<and> is_digit19 b then Some (digit_val b)
          else None
      | _ \<Rightarrow> None)"

definition is_leap :: "nat \<Rightarrow> bool" where
  "is_leap y = (y mod 4 = 0 \<and> (y mod 100 \<noteq> 0 \<or> y mod 400 = 0))"

definition days_in_month :: "nat \<Rightarrow> nat \<Rightarrow> nat" where
  "days_in_month y m =
     (if m = 2 then (if is_leap y then 29 else 28)
      else if m \<in> {4, 6, 9, 11} then 30 else 31)"

definition strptime_ymd :: "string \<Rightarrow> (int \<times> int \<times> int) option" where
  "strptime_ymd s =
     (case parse_year s of
        None \<Rightarrow> None
      | Some (y, s1) \<Rightarrow>
          (case parse_month s1 of
             None \<Rightarrow> None
           | Some (m, s2) \<Rightarrow>
               (case parse_day s2 of
                  None \<Rightarrow> None
                | Some d \<Rightarrow>
                    if 1 \<le> y \<and> d \<le> days_in_month y m
                    then Some (int y, int m, int d) else None)))"

section \<open>The HTTP client\<close>

text \<open>
  A request as \<^verbatim>\<open>_request\<close> builds it for \<^verbatim>\<open>urllib\<close>. \<open>req_data\<close> is the text whose
  UTF-8 encoding is the body. A header value is \<open>None\<close> where the caller passes Python's
  \<^verbatim>\<open>None\<close>.
\<close>

record request =
  req_method :: string
  req_url :: string
  req_data :: "string option"
  req_headers :: "string option dict"

text \<open>
  The bytes of a response body, told apart by what \<^verbatim>\<open>decode('utf-8')\<close> and
  \<^verbatim>\<open>json.loads\<close> make of them: no bytes at all; bytes that are not UTF-8 (the decoding
  raises \<^verbatim>\<open>UnicodeDecodeError\<close>); a text that is not JSON (\<^verbatim>\<open>JSONDecodeError\<close>); a
  JSON document. The last three stand for bodies that are not empty.
\<close>

datatype body = Empty | Invalid_utf8 | Not_json string | Json_doc json

text \<open>
  What \<^verbatim>\<open>urlopen\<close> does with a request: a response with a success status, an
  \<^verbatim>\<open>HTTPError\<close> (status code, reason phrase, and its body when it has one), a
  \<^verbatim>\<open>URLError\<close> (with its reason as text), or another exception.
\<close>

datatype outcome =
    Response body
  | HTTPError int string "body option"
  | URLError string
  | Raises exn

type_synonym transport = "request \<Rightarrow> outcome"

type_synonym envelope = "json dict"

record VaultClient =
  base_url :: string
  api_key :: string

definition VaultClient_init :: "string \<Rightarrow> string \<Rightarrow> VaultClient" where
  "VaultClient_init url key = \<lparr>base_url = rstrip_slash url, api_key = key\<rparr>"

text \<open>\<^verbatim>\<open>str(e)\<close> of an \<^verbatim>\<open>HTTPError\<close>.\<close>

definition str_HTTPError :: "int \<Rightarrow> string \<Rightarrow> string" where
  "str_HTTPError code msg = ''HTTP Error '' @ str_int code @ '': '' @ msg"

definition build_headers :: "VaultClient \<Rightarrow> string option dict \<Rightarrow> string option \<Rightarrow> string option dict" where
  "build_headers self headers content_type =
     (let req_headers = [(''Authorization'', Some (''Bearer '' @ api_key self))];
          req_headers = (if headers \<noteq> [] then dict_update req_headers headers else req_headers)
      in (case content_type of
            None \<Rightarrow> req_headers
          | Some ct \<Rightarrow>
              if ct \<noteq> [] then dict_set req_headers ''Content-Type'' (Some ct) else req_headers))"

text \<open>\<^verbatim>\<open>{'ok': True, 'data': v}\<close>\<close>

definition success :: "json \<Rightarrow> envelope" where
  "success v = [(''ok'', JBool True), (''data'', v)]"

text \<open>\<^verbatim>\<open>{'ok': False, 'error': msg}\<close>, the failure with no status code.\<close>

definition failure :: "string \<Rightarrow> envelope" where
  "failure msg = [(''ok'', JBool False), (''error'', JStr msg)]"

text \<open>The success branch of \<^verbatim>\<open>_request\<close> (lines 64 to 71).\<close>

definition on_response :: "body \<Rightarrow> exn + envelope" where
  "on_response content =
     (case content of
        Empty \<Rightarrow> Inr (success JNull)
      | Invalid_utf8 \<Rightarrow> Inl UnicodeDecodeError
      | Json_doc v \<Rightarrow> Inr (success v)
      | Not_json s \<Rightarrow> Inr (success (JStr s)))"

text \<open>
  The \<^verbatim>\<open>HTTPError\<close> handler (lines 73 to 78). The body is decoded before the inner
  \<^verbatim>\<open>try\<close>; the bare \<^verbatim>\<open>except\<close> covers \<^verbatim>\<open>json.loads\<close> and the \<^verbatim>\<open>.get\<close> on what it
  returned.
\<close>

definition on_http_error :: "int \<Rightarrow> string \<Rightarrow> body option \<Rightarrow> exn + envelope" where
  "on_http_error code msg fp =
     (let fallback =
            [(''ok'', JBool False), (''error'', JStr (str_HTTPError code msg)), (''code'', JInt code)]
      in (case fp of
            None \<Rightarrow> Inr fallback
          | Some Empty \<Rightarrow> Inr fallback
          | Some Invalid_utf8 \<Rightarrow> Inl UnicodeDecodeError
          | Some (Not_json s) \<Rightarrow> Inr fallback
          | Some (Json_doc (JObj error_data)) \<Rightarrow>
              Inr [(''ok'', JBool False),
                   (''error'', dict_get_default error_data ''message'' (JStr (str_HTTPError code msg))),
                   (''code'', JInt code)]
          | Some (Json_doc _) \<Rightarrow> Inr fallback))"

text \<open>The request \<^verbatim>\<open>_request\<close> hands to \<^verbatim>\<open>urlopen\<close> (lines 50 to 60).\<close>

definition build_request ::
  "VaultClient \<Rightarrow> string \<Rightarrow> string \<Rightarrow> string option \<Rightarrow> string option dict \<Rightarrow> string option \<Rightarrow>
   request" where
  "build_request self method path data headers content_type =
     (let url = base_url self @ path
      in \<lparr>req_method = method, req_url = url, req_data = data,
          req_headers = build_headers self headers content_type\<rparr>)"

definition VaultClient_request ::
  "VaultClient \<Rightarrow> transport \<Rightarrow> string \<Rightarrow> string \<Rightarrow> string option \<Rightarrow> string option dict \<Rightarrow>
   string option \<Rightarrow> request \<times> (exn + envelope)" where
  "VaultClient_request self T method path data headers content_type =
     (let request = build_request self method path data headers content_type
      in (request,
          case T request of
            Response content \<Rightarrow> on_response content
          | HTTPError code msg fp \<Rightarrow> on_http_error code msg fp
          | URLError reason \<Rightarrow> Inr (failure (''Connection failed: '' @ reason))
          | Raises e \<Rightarrow> Inl e))"

text \<open>
  \<^verbatim>\<open>result['ok']\<close> as a condition. Every envelope has the key; \<^verbatim>\<open>result['data']\<close>
  on an envelope without that key is a \<^verbatim>\<open>KeyError\<close>.
\<close>

definition env_ok :: "envelope \<Rightarrow> bool" where
  "env_ok result = (case dict_get result ''ok'' of Some v \<Rightarrow> truthy v | None \<Rightarrow> False)"

definition search :: "VaultClient \<Rightarrow> transport \<Rightarrow> string \<Rightarrow> int \<Rightarrow> request \<times> (exn + envelope)" where
  "search self T query context_length =
     (let params = urlencode [(''query'', query), (''contextLength'', str_int context_length)]
      in VaultClient_request self T ''POST'' (''/search/simple/?'' @ params) None [] None)"

definition get_note :: "VaultClient \<Rightarrow> transport \<Rightarrow> string \<Rightarrow> bool \<Rightarrow> request \<times> (exn + envelope)" where
  "get_note self T path metadata_only =
     (let encoded_path = quote path;
          headers = [(''Accept'', Some ''application/vnd.olrapi.note+json'')];
          (req, r) = VaultClient_request self T ''GET'' (''/vault/'' @ encoded_path) None headers None
      in (req,
          case r of
            Inl e \<Rightarrow> Inl e
          | Inr result \<Rightarrow>
              if env_ok result \<and> metadata_only then
                (case dict_get result ''data'' of
                   None \<Rightarrow> Inl KeyError
                 | Some (JObj d) \<Rightarrow> Inr (dict_set result ''data'' (JObj (dict_pop d ''content'')))
                 | Some _ \<Rightarrow> Inr result)
              else Inr result))"

definition list_dir :: "VaultClient \<Rightarrow> transport \<Rightarrow> string \<Rightarrow> request \<times> (exn + envelope)" where
  "list_dir self T path =
     (if path \<noteq> [] then
        (let encoded_path = quote (rstrip_slash path) @ ''/''
         in VaultClient_request self T ''GET'' (''/vault/'' @ encoded_path) None [] None)
      else VaultClient_request self T ''GET'' ''/vault/'' None [] None)"

definition create_note :: "VaultClient \<Rightarrow> transport \<Rightarrow> string \<Rightarrow> string \<Rightarrow> request \<times> (exn + envelope)" where
  "create_note self T path content =
     (let encoded_path = quote path
      in VaultClient_request self T ''PUT'' (''/vault/'' @ encoded_path) (Some content) []
           (Some ''text/markdown''))"

definition append_note :: "VaultClient \<Rightarrow> transport \<Rightarrow> string \<Rightarrow> string \<Rightarrow> request \<times> (exn + envelope)" where
  "append_note self T path content =
     (let encoded_path = quote path
      in VaultClient_request self T ''POST'' (''/vault/'' @ encoded_path) (Some content) []
           (Some ''text/markdown''))"

definition patch_note ::
  "VaultClient \<Rightarrow> transport \<Rightarrow> string \<Rightarrow> string \<Rightarrow> string option \<Rightarrow> string \<Rightarrow> string \<Rightarrow> string \<Rightarrow>
   request \<times> (exn + envelope)" where
  "patch_note self T path target_type target operation content content_type =
     (let encoded_path = quote path;
          headers = [(''Operation'', Some operation), (''Target-Type'', Some target_type),
                     (''Target'', target)]
      in VaultClient_request self T ''PATCH'' (''/vault/'' @ encoded_path) (Some content) headers
           (Some content_type))"

text \<open>An optional integer as a condition: \<^verbatim>\<open>None\<close> and 0 are false.\<close>

definition truthy_int :: "int option \<Rightarrow> bool" where
  "truthy_int x = (case x of None \<Rightarrow> False | Some i \<Rightarrow> i \<noteq> 0)"

definition daily_append ::
  "VaultClient \<Rightarrow> transport \<Rightarrow> string \<Rightarrow> string \<Rightarrow> int option \<Rightarrow> int option \<Rightarrow> int option \<Rightarrow>
   request \<times> (exn + envelope)" where
  "daily_append self T content period year month day =
     (let path =
            (if truthy_int year \<and> truthy_int month \<and> truthy_int day
             then ''/periodic/'' @ period @ ''/'' @ str_int (the year) @ ''/'' @ str_int (the month)
                    @ ''/'' @ str_int (the day) @ ''/''
             else ''/periodic/'' @ period @ ''/'')
      in VaultClient_request self T ''POST'' path (Some content) [] (Some ''text/markdown''))"

definition delete_note :: "VaultClient \<Rightarrow> transport \<Rightarrow> string \<Rightarrow> request \<times> (exn + envelope)" where
  "delete_note self T path =
     (let encoded_path = quote path
      in VaultClient_request self T ''DELETE'' (''/vault/'' @ encoded_path) None [] None)"

section \<open>The command line: \<^verbatim>\<open>main\<close>\<close>

text \<open>
  The parsed arguments. The three ways to give a content are one group of options;
  \<^verbatim>\<open>argparse\<close> lets exactly one of them be set.
\<close>

record content_args =
  arg_content :: "string option"
  arg_stdin :: bool
  arg_file :: "string option"

datatype period = PDaily | PWeekly | PMonthly | PQuarterly | PYearly

fun period_str :: "period \<Rightarrow> string" where
  "period_str PDaily = ''daily''"
| "period_str PWeekly = ''weekly''"
| "period_str PMonthly = ''monthly''"
| "period_str PQuarterly = ''quarterly''"
| "period_str PYearly = ''yearly''"

datatype patch_op = OpAppend | OpPrepend | OpReplace

fun patch_op_str :: "patch_op \<Rightarrow> string" where
  "patch_op_str OpAppend = ''append''"
| "patch_op_str OpPrepend = ''prepend''"
| "patch_op_str OpReplace = ''replace''"

text \<open>
  One constructor per subcommand, with its arguments in the order the parser declares
  them: \<open>CmdSearch query max_results context_length\<close>,
  \<open>CmdGet path metadata_only max_chars\<close>, \<open>CmdList path\<close>,
  \<open>CmdPatch path heading frontmatter block operation content\<close>,
  \<open>CmdDaily date period content\<close>.
\<close>

datatype command =
    CmdSearch string int int
  | CmdGet string bool "int option"
  | CmdList string
  | CmdCreate string content_args
  | CmdAppend string content_args
  | CmdPatch string "string option" "string option" "string option" patch_op content_args
  | CmdDaily "string option" period content_args
  | CmdDelete string

text \<open>What the process reads from outside: the environment variables, the standard
  input, the files it may open, and the network.\<close>

record environ =
  OBSIDIAN_API_KEY :: "string option"
  OBSIDIAN_API_URL :: "string option"
  stdin_text :: string
  read_file :: "string \<Rightarrow> exn + string"
  urlopen :: transport

text \<open>An optional string as a condition: \<^verbatim>\<open>None\<close> and the empty string are false.\<close>

definition truthy_str :: "string option \<Rightarrow> bool" where
  "truthy_str x = (case x of None \<Rightarrow> False | Some s \<Rightarrow> s \<noteq> [])"

definition get_content :: "environ \<Rightarrow> content_args \<Rightarrow> exn + string" where
  "get_content E args_obj =
     (if truthy_str (arg_content args_obj) then Inr (the (arg_content args_obj))
      else if arg_stdin args_obj then Inr (stdin_text E)
      else if truthy_str (arg_file args_obj) then read_file E (the (arg_file args_obj))
      else Inr [])"

subsection \<open>Shaping of search results (lines 257 to 271)\<close>

text \<open>
  \<^verbatim>\<open>m.get('context', '')[:200]\<close>: \<^verbatim>\<open>.get\<close> needs a dictionary, the slice a
  string or a list (every other value raises; all of these raises are \<open>TypeError\<close>
  here, also the one of a dictionary).
\<close>

definition snippet :: "json \<Rightarrow> exn + json" where
  "snippet m =
     (case m of
        JObj d \<Rightarrow>
          (case dict_get_default d ''context'' (JStr []) of
             JStr s \<Rightarrow> Inr (JStr (py_slice_to 200 s))
           | JList xs \<Rightarrow> Inr (JList (py_slice_to 200 xs))
           | _ \<Rightarrow> Inl TypeError)
      | _ \<Rightarrow> Inl AttributeError)"

text \<open>
  \<^verbatim>\<open>[... for m in matches[:3]]\<close>, reached only when \<^verbatim>\<open>matches\<close> is true. The
  characters of a string have no \<^verbatim>\<open>.get\<close>; a number, \<^verbatim>\<open>True\<close> or a dictionary
  cannot be sliced.
\<close>

definition snippets_of :: "json \<Rightarrow> exn + json list" where
  "snippets_of matches =
     (case matches of
        JList ms \<Rightarrow> map_exn snippet (py_slice_to 3 ms)
      | JStr s \<Rightarrow> Inl AttributeError
      | _ \<Rightarrow> Inl TypeError)"

definition simplify_item :: "json \<Rightarrow> exn + json" where
  "simplify_item item =
     (case item of
        JObj d \<Rightarrow>
          (let entry = [(''path'', dict_get_default d ''filename'' (JStr [])),
                        (''score'', dict_get_default d ''score'' (JInt 0))];
               matches = dict_get_default d ''matches'' (JList [])
           in if truthy matches then
                (case snippets_of matches of
                   Inl e \<Rightarrow> Inl e
                 | Inr ss \<Rightarrow> Inr (JObj (dict_set entry ''snippets'' (JList ss))))
              else Inr (JObj entry))
      | _ \<Rightarrow> Inl AttributeError)"

definition shape_search :: "int \<Rightarrow> envelope \<Rightarrow> exn + envelope" where
  "shape_search max_results result =
     (if env_ok result then
        (case dict_get result ''data'' of
           None \<Rightarrow> Inl KeyError
         | Some (JList hits) \<Rightarrow>
             (case map_exn simplify_item (py_slice_to max_results hits) of
                Inl e \<Rightarrow> Inl e
              | Inr simplified \<Rightarrow> Inr (dict_set result ''data'' (JList simplified)))
         | Some _ \<Rightarrow> Inr result)
      else Inr result)"

subsection \<open>Truncation of a note's content (lines 275 to 278)\<close>

definition truncation_marker :: string where
  "truncation_marker = CHR 0x0A # ''...[truncated]''"

text \<open>\<^verbatim>\<open>len(content)\<close>: a number, a truth value and \<^verbatim>\<open>None\<close> have no length.\<close>

definition py_len :: "json \<Rightarrow> exn + int" where
  "py_len v =
     (case v of
        JStr s \<Rightarrow> Inr (int (length s))
      | JList xs \<Rightarrow> Inr (int (length xs))
      | JObj d \<Rightarrow> Inr (int (length d))
      | _ \<Rightarrow> Inl TypeError)"

text \<open>
  \<^verbatim>\<open>content[:max_chars] + '\n...[truncated]'\<close>, reached with a content that has a
  length: only a string can be sliced and then added to a string.
\<close>

definition truncated :: "int \<Rightarrow> json \<Rightarrow> exn + json" where
  "truncated max_chars content =
     (case content of
        JStr s \<Rightarrow> Inr (JStr (py_slice_to max_chars s @ truncation_marker))
      | _ \<Rightarrow> Inl TypeError)"

definition truncate_content :: "int \<Rightarrow> json dict \<Rightarrow> exn + json dict" where
  "truncate_content max_chars d =
     (let content = dict_get_default d ''content'' (JStr [])
      in (case py_len content of
            Inl e \<Rightarrow> Inl e
          | Inr n \<Rightarrow>
              if n > max_chars then
                (case truncated max_chars content of
                   Inl e \<Rightarrow> Inl e
                 | Inr c \<Rightarrow> Inr (dict_set d ''content'' c))
              else Inr d))"

definition shape_get :: "int option \<Rightarrow> envelope \<Rightarrow> exn + envelope" where
  "shape_get max_chars result =
     (if env_ok result \<and> truthy_int max_chars then
        (case dict_get result ''data'' of
           None \<Rightarrow> Inl KeyError
         | Some (JObj d) \<Rightarrow>
             (case truncate_content (the max_chars) d of
                Inl e \<Rightarrow> Inl e
              | Inr d' \<Rightarrow> Inr (dict_set result ''data'' (JObj d')))
         | Some _ \<Rightarrow> Inr result)
      else Inr result)"

subsection \<open>The acknowledgement of a write\<close>

text \<open>\<^verbatim>\<open>if result['ok']: result['data'] = {...}\<close>\<close>

definition acknowledge :: "json \<Rightarrow> envelope \<Rightarrow> envelope" where
  "acknowledge ack result = (if env_ok result then dict_set result ''data'' ack else result)"

text \<open>An optional string as a JSON value: \<^verbatim>\<open>None\<close> is \<^verbatim>\<open>null\<close>.\<close>

definition json_of_str :: "string option \<Rightarrow> json" where
  "json_of_str x = (case x of None \<Rightarrow> JNull | Some s \<Rightarrow> JStr s)"

subsection \<open>Dispatch\<close>

text \<open>
  A run of \<^verbatim>\<open>main\<close> gives the requests it handed to \<^verbatim>\<open>urllib\<close>, in order, and
  either the envelope it prints or the exception that ends it.
\<close>

definition after ::
  "request \<times> (exn + envelope) \<Rightarrow> (envelope \<Rightarrow> exn + envelope) \<Rightarrow> request list \<times> (exn + envelope)" where
  "after call shape =
     ([fst call], case snd call of Inl e \<Rightarrow> Inl e | Inr result \<Rightarrow> shape result)"

definition invalid_date :: "string \<Rightarrow> envelope" where
  "invalid_date date = failure (''Invalid date format: '' @ date @ ''. Use YYYY-MM-DD'')"

text \<open>
  The \<^verbatim>\<open>daily\<close> branch (lines 313 to 322): the attempt, then the acknowledgement of
  a success. The \<^verbatim>\<open>try\<close> holds both the parsing of the date and the call of
  \<^verbatim>\<open>daily_append\<close>, so a \<^verbatim>\<open>ValueError\<close> out of the request is answered like an
  unparsable date.
\<close>

definition run_daily ::
  "VaultClient \<Rightarrow> transport \<Rightarrow> string option \<Rightarrow> string \<Rightarrow> string \<Rightarrow> request list \<times> (exn + envelope)" where
  "run_daily client T date period content =
     (let attempt =
            (if truthy_str date then
               (case strptime_ymd (the date) of
                  None \<Rightarrow> ([], Inr (invalid_date (the date)))
                | Some (y, m, d) \<Rightarrow>
                    (let call = daily_append client T content period (Some y) (Some m) (Some d)
                     in ([fst call],
                         case snd call of
                           Inl e \<Rightarrow> if is_ValueError e then Inr (invalid_date (the date)) else Inl e
                         | Inr result \<Rightarrow> Inr result)))
             else
               (let call = daily_append client T content period None None None
                in ([fst call], snd call)))
      in (fst attempt,
          case snd attempt of
            Inl e \<Rightarrow> Inl e
          | Inr result \<Rightarrow>
              Inr (acknowledge (JObj [(''appended_to'', JStr (period @ '' note''))]) result)))"

definition run :: "VaultClient \<Rightarrow> environ \<Rightarrow> command \<Rightarrow> request list \<times> (exn + envelope)" where
  "run client E cmd =
     (let T = urlopen E in
      case cmd of
        CmdSearch query max_results context_length \<Rightarrow>
          after (search client T query context_length) (shape_search max_results)
      | CmdGet path metadata_only max_chars \<Rightarrow>
          after (get_note client T path metadata_only) (shape_get max_chars)
      | CmdList path \<Rightarrow> after (list_dir client T path) Inr
      | CmdCreate path src \<Rightarrow>
          (case get_content E src of
             Inl e \<Rightarrow> ([], Inl e)
           | Inr content \<Rightarrow>
               after (create_note client T path content)
                 (\<lambda>result. Inr (acknowledge (JObj [(''created'', JStr path)]) result)))
      | CmdAppend path src \<Rightarrow>
          (case get_content E src of
             Inl e \<Rightarrow> ([], Inl e)
           | Inr content \<Rightarrow>
               after (append_note client T path content)
                 (\<lambda>result. Inr (acknowledge (JObj [(''appended_to'', JStr path)]) result)))
      | CmdPatch path heading frontmatter block operation src \<Rightarrow>
          (case get_content E src of
             Inl e \<Rightarrow> ([], Inl e)
           | Inr content \<Rightarrow>
               (let (target_type, target) =
                      (if truthy_str heading then (''heading'', heading)
                       else if truthy_str frontmatter then (''frontmatter'', frontmatter)
                       else (''block'', block));
                    content_type =
                      (if truthy_str frontmatter then ''application/json'' else ''text/markdown'')
                in after (patch_note client T path target_type target (patch_op_str operation)
                            content content_type)
                     (\<lambda>result. Inr (acknowledge
                        (JObj [(''patched'', JStr path), (''target'', json_of_str target)]) result))))
      | CmdDaily date period src \<Rightarrow>
          (case get_content E src of
             Inl e \<Rightarrow> ([], Inl e)
           | Inr content \<Rightarrow> run_daily client T date (period_str period) content)
      | CmdDelete path \<Rightarrow>
          after (delete_note client T path)
            (\<lambda>result. Inr (acknowledge (JObj [(''deleted'', JStr path)]) result)))"

definition main :: "environ \<Rightarrow> command \<Rightarrow> request list \<times> (exn + envelope)" where
  "main E cmd =
     (if \<not> truthy_str (OBSIDIAN_API_KEY E)
      then ([], Inr (failure ''OBSIDIAN_API_KEY environment variable not set''))
      else
        (let base =
               (case OBSIDIAN_API_URL E of None \<Rightarrow> ''https://127.0.0.1:27124'' | Some u \<Rightarrow> u);
             client = VaultClient_init base (the (OBSIDIAN_API_KEY E))
         in run client E cmd))"

text \<open>The exit status: 0 for an envelope whose \<^verbatim>\<open>ok\<close> is true, 1 otherwise.\<close>

definition exit_status :: "exn + envelope \<Rightarrow> nat" where
  "exit_status r = (case r of Inl e \<Rightarrow> 1 | Inr result \<Rightarrow> if env_ok result then 0 else 1)"

text \<open>A network that answers every request alike, for concrete runs.\<close>

definition answering :: "outcome \<Rightarrow> transport" where
  "answering out req = out"

text \<open>A client as \<^verbatim>\<open>main\<close> builds it, for concrete runs.\<close>

definition local_client :: VaultClient where
  "local_client = VaultClient_init ''https://127.0.0.1:27124/'' ''secret''"

text \<open>
  The surroundings of a concrete run: the key is set, the URL is left to its default,
  the given network.
\<close>

definition local_environ :: "transport \<Rightarrow> environ" where
  "local_environ T =
     \<lparr>OBSIDIAN_API_KEY = Some ''secret'', OBSIDIAN_API_URL = None, stdin_text = [],
      read_file = (\<lambda>f. Inl OSError), urlopen = T\<rparr>"

text \<open>The option \<^verbatim>\<open>--content c\<close>.\<close>

definition inline :: "string \<Rightarrow> content_args" where
  "inline c = \<lparr>arg_content = Some c, arg_stdin = False, arg_file = None\<rparr>"

text \<open>
  The invariant of an envelope: it has exactly one of the keys \<^verbatim>\<open>data\<close> and
  \<^verbatim>\<open>error\<close>, and its \<^verbatim>\<open>ok\<close> is the truth value of "the key \<^verbatim>\<open>data\<close> is there". A
  payload of \<^verbatim>\<open>None\<close> under \<^verbatim>\<open>data\<close> (a success with an empty body) counts as
  there.
\<close>

definition envelope_invariant :: "envelope \<Rightarrow> bool" where
  "envelope_invariant result =
     ((has_key result ''data'' \<noteq> has_key result ''error'')
      \<and> dict_get result ''ok'' = Some (JBool (has_key result ''data'')))"

text \<open>
  A search hit as the data model has it: an object whose \<^verbatim>\<open>matches\<close>, when it has the
  field, is a list of objects whose \<^verbatim>\<open>context\<close>, when they have the field, is a text.
  Its parts are read with \<open>hit_field\<close>, \<open>hit_matches\<close> and \<open>match_context\<close>.
\<close>

definition is_match :: "json \<Rightarrow> bool" where
  "is_match m =
     (case m of
        JObj d \<Rightarrow> (case dict_get d ''context'' of None \<Rightarrow> True | Some (JStr s) \<Rightarrow> True | Some _ \<Rightarrow> False)
      | _ \<Rightarrow> False)"

definition is_hit :: "json \<Rightarrow> bool" where
  "is_hit h =
     (case h of
        JObj d \<Rightarrow>
          (case dict_get d ''matches'' of
             None \<Rightarrow> True
           | Some (JList ms) \<Rightarrow> list_all is_match ms
           | Some _ \<Rightarrow> False)
      | _ \<Rightarrow> False)"

definition hit_field :: "string \<Rightarrow> json \<Rightarrow> json \<Rightarrow> json" where
  "hit_field k dflt h = (case h of JObj d \<Rightarrow> dict_get_default d k dflt | _ \<Rightarrow> dflt)"

definition hit_matches :: "json \<Rightarrow> json list" where
  "hit_matches h =
     (case h of
        JObj d \<Rightarrow> (case dict_get d ''matches'' of Some (JList ms) \<Rightarrow> ms | _ \<Rightarrow> [])
      | _ \<Rightarrow> [])"

definition match_context :: "json \<Rightarrow> string" where
  "match_context m =
     (case m of
        JObj d \<Rightarrow> (case dict_get d ''context'' of Some (JStr s) \<Rightarrow> s | _ \<Rightarrow> [])
      | _ \<Rightarrow> [])"

section \<open>Facts about dictionaries and envelopes\<close>

lemma map_of_dict_set: "map_of (dict_set d k v) = (map_of d)(k \<mapsto> v)"
  by (induction d k v rule: dict_set.induct) auto

lemma dict_get_dict_set: "dict_get (dict_set d k v) k' = (if k' = k then Some v else dict_get d k')"
  by (simp add: dict_get_def map_of_dict_set)

lemma has_key_dict_set: "has_key (dict_set d k v) k' = (k' = k \<or> has_key d k')"
  by (simp add: has_key_def map_of_dict_set)

lemma dict_get_default_dict_set_same: "dict_get_default (dict_set d k v) k dflt = v"
  by (simp add: dict_get_default_def map_of_dict_set)

lemma dict_set_twice: "dict_set (dict_set d k v) k w = dict_set d k w"
  by (induction d k v rule: dict_set.induct) auto

lemma env_ok_success: "env_ok (success v)"
  by (simp add: env_ok_def success_def dict_get_def)

lemma dict_get_success_data: "dict_get (success v) ''data'' = Some v"
  by (simp add: success_def dict_get_def)

lemma dict_set_success_data: "dict_set (success v) ''data'' w = success w"
  by (simp add: success_def)

lemmas success_simps = env_ok_success dict_get_success_data dict_set_success_data

section \<open>Truncation of a note's content\<close>

lemma length_truncation_marker: "length truncation_marker = 15"
  by (simp add: truncation_marker_def)

lemma truncate_content_short:
  assumes "dict_get_default d ''content'' (JStr []) = JStr s" and "int (length s) \<le> n"
  shows "truncate_content n d = Inr d"
  using assms by (simp add: truncate_content_def py_len_def)

lemma truncate_content_long:
  assumes "dict_get_default d ''content'' (JStr []) = JStr s" and "n < int (length s)" and "0 \<le> n"
  shows "truncate_content n d =
           Inr (dict_set d ''content'' (JStr (take (nat n) s @ truncation_marker)))"
  using assms by (simp add: truncate_content_def py_len_def truncated_def py_slice_to_def)

lemma shape_get_short:
  assumes "n \<noteq> 0" and "dict_get_default d ''content'' (JStr []) = JStr s"
    and "int (length s) \<le> n"
  shows "shape_get (Some n) (success (JObj d)) = Inr (success (JObj d))"
  using assms by (simp add: shape_get_def truthy_int_def truncate_content_short success_simps)

lemma shape_get_long:
  assumes "0 < n" and "dict_get_default d ''content'' (JStr []) = JStr s"
    and "n < int (length s)"
  shows "shape_get (Some n) (success (JObj d)) =
           Inr (success (JObj (dict_set d ''content'' (JStr (take (nat n) s @ truncation_marker)))))"
  using assms by (simp add: shape_get_def truthy_int_def truncate_content_long success_simps)

lemma shape_get_again:
  assumes "0 < n" and "n < int (length s)"
  shows "shape_get (Some n)
           (success (JObj (dict_set d ''content'' (JStr (take (nat n) s @ truncation_marker))))) =
         Inr (success (JObj (dict_set d ''content'' (JStr (take (nat n) s @ truncation_marker)))))"
proof -
  let ?t = "take (nat n) s @ truncation_marker"
  let ?d = "dict_set d ''content'' (JStr ?t)"
  have len: "n < int (length ?t)"
    using assms by (simp add: length_truncation_marker)
  have c: "dict_get_default ?d ''content'' (JStr []) = JStr ?t"
    by (simp add: dict_get_default_dict_set_same)
  have tk: "take (nat n) ?t = take (nat n) s"
    using assms by simp
  have "shape_get (Some n) (success (JObj ?d)) =
          Inr (success (JObj (dict_set ?d ''content'' (JStr (take (nat n) ?t @ truncation_marker)))))"
    using assms(1) c len by (rule shape_get_long)
  also have "dict_set ?d ''content'' (JStr (take (nat n) ?t @ truncation_marker)) = ?d"
    by (simp only: tk dict_set_twice)
  finally show ?thesis .
qed

text \<open>
  Claim C4, as amended: for every limit above zero and every note whose content is a
  string (an absent content counts as the empty string), a content not longer than the
  limit leaves the envelope as it was; a longer content is replaced by its first
  \<open>limit\<close> characters followed by the truncation marker; and shaping the result once
  more changes nothing.
\<close>

theorem get_truncation:
  assumes "0 < n" and "dict_get_default d ''content'' (JStr []) = JStr s"
  shows "(int (length s) \<le> n \<longrightarrow>
            shape_get (Some n) (success (JObj d)) = Inr (success (JObj d)))
       \<and> (n < int (length s) \<longrightarrow>
            shape_get (Some n) (success (JObj d)) =
              Inr (success (JObj (dict_set d ''content''
                     (JStr (take (nat n) s @ truncation_marker)))))
            \<and> length (take (nat n) s) = nat n)
       \<and> (\<forall>r. shape_get (Some n) (success (JObj d)) = Inr r \<longrightarrow> shape_get (Some n) r = Inr r)"
proof (intro conjI impI allI)
  assume "int (length s) \<le> n"
  with assms show "shape_get (Some n) (success (JObj d)) = Inr (success (JObj d))"
    by (intro shape_get_short) auto
next
  assume "n < int (length s)"
  with assms show "shape_get (Some n) (success (JObj d)) =
      Inr (success (JObj (dict_set d ''content'' (JStr (take (nat n) s @ truncation_marker)))))"
    by (intro shape_get_long)
next
  assume "n < int (length s)"
  then show "length (take (nat n) s) = nat n"
    by simp
next
  fix r
  assume r: "shape_get (Some n) (success (JObj d)) = Inr r"
  show "shape_get (Some n) r = Inr r"
  proof (cases "int (length s) \<le> n")
    case True
    with assms have "shape_get (Some n) (success (JObj d)) = Inr (success (JObj d))"
      by (intro shape_get_short) auto
    with r show ?thesis by simp
  next
    case False
    then have long: "n < int (length s)" by simp
    with assms r
    have "r = success (JObj (dict_set d ''content'' (JStr (take (nat n) s @ truncation_marker))))"
      by (simp add: shape_get_long)
    then show ?thesis
      using shape_get_again [OF assms(1) long] by simp
  qed
qed

theorem get_truncation_witness:
  "shape_get (Some 3) (success (JObj [(''content'', JStr ''hello''), (''tags'', JList [JStr ''x''])]))
     = Inr (success (JObj [(''content'', JStr (''hel'' @ truncation_marker)),
                           (''tags'', JList [JStr ''x''])]))
   \<and> shape_get (Some 5) (success (JObj [(''content'', JStr ''hello'')]))
     = Inr (success (JObj [(''content'', JStr ''hello'')]))"
  using get_truncation [of 3 "[(''content'', JStr ''hello''), (''tags'', JList [JStr ''x''])]" "''hello''"]
    get_truncation [of 5 "[(''content'', JStr ''hello'')]" "''hello''"]
  by (simp add: dict_get_default_def)

text \<open>
  Claim C4 as stated fails at the limits 0 and -1: with the limit 0 a content of three
  characters comes back unaltered, not as no characters and the marker; with the limit
  -1 it comes back as its first two characters and the marker.
\<close>

theorem get_truncation_counterexample:
  "shape_get (Some 0) (success (JObj [(''content'', JStr ''abc'')]))
     = Inr (success (JObj [(''content'', JStr ''abc'')]))
   \<and> shape_get (Some 0) (success (JObj [(''content'', JStr ''abc'')]))
     \<noteq> Inr (success (JObj [(''content'', JStr (take 0 ''abc'' @ truncation_marker))]))
   \<and> shape_get (Some (- 1)) (success (JObj [(''content'', JStr ''abc'')]))
     = Inr (success (JObj [(''content'', JStr (''ab'' @ truncation_marker))]))"
  by (simp add: shape_get_def truthy_int_def env_ok_def dict_get_def truncate_content_def
      py_len_def truncated_def py_slice_to_def dict_get_default_def success_def
      truncation_marker_def)

text \<open>
  Claim C10: a limit of 0 truncates nothing. Shaping with the limit 0 returns the
  envelope as it is, which is what shaping with no limit does, whatever the content; so
  a run of \<^verbatim>\<open>get\<close> with \<^verbatim>\<open>--max-chars 0\<close> is the run without the option.
\<close>

theorem zero_limit_is_no_limit:
  "shape_get (Some 0) result = Inr result
   \<and> shape_get (Some 0) result = shape_get None result
   \<and> main E (CmdGet path metadata_only (Some 0)) = main E (CmdGet path metadata_only None)"
proof -
  have same: "shape_get (Some 0) = shape_get None"
    by (rule ext) (simp add: shape_get_def truthy_int_def)
  have "shape_get None result = Inr result"
    by (simp add: shape_get_def truthy_int_def)
  then show ?thesis
    by (simp add: same main_def run_def)
qed

theorem zero_limit_is_no_limit_witness:
  "shape_get (Some 0) (success (JObj [(''content'', JStr ''hello'')]))
     = Inr (success (JObj [(''content'', JStr ''hello'')]))"
  using zero_limit_is_no_limit [of "success (JObj [(''content'', JStr ''hello'')])"]
  by simp

section \<open>The request executor\<close>

lemma fst_VaultClient_request:
  "fst (VaultClient_request self T method path data headers ct) =
     build_request self method path data headers ct"
  by (simp add: VaultClient_request_def Let_def)

lemma snd_VaultClient_request:
  "snd (VaultClient_request self T method path data headers ct) =
     (case T (build_request self method path data headers ct) of
        Response content \<Rightarrow> on_response content
      | HTTPError code msg fp \<Rightarrow> on_http_error code msg fp
      | URLError reason \<Rightarrow> Inr (failure (''Connection failed: '' @ reason))
      | Raises e \<Rightarrow> Inl e)"
  by (simp add: VaultClient_request_def Let_def)

text \<open>
  Claim C2, as amended: when the network answers the request with a success status and
  a body that is empty or decodes as UTF-8, \<^verbatim>\<open>_request\<close> returns the success
  envelope; its payload is the decoded JSON document when the body is one, the decoded
  text when the body is not JSON, and \<^verbatim>\<open>None\<close> when the body is empty. In each case
  the envelope's \<^verbatim>\<open>ok\<close> is true and it has no \<^verbatim>\<open>error\<close>.
\<close>

theorem success_response_envelope:
  assumes "T (build_request self method path data headers ct) = Response content"
    and "content \<noteq> Invalid_utf8"
  shows "(\<forall>v. content = Json_doc v \<longrightarrow>
            snd (VaultClient_request self T method path data headers ct) = Inr (success v))
       \<and> (\<forall>s. content = Not_json s \<longrightarrow>
            snd (VaultClient_request self T method path data headers ct) = Inr (success (JStr s)))
       \<and> (content = Empty \<longrightarrow>
            snd (VaultClient_request self T method path data headers ct) = Inr (success JNull))
       \<and> (\<exists>v. snd (VaultClient_request self T method path data headers ct) = Inr (success v)
              \<and> env_ok (success v) \<and> \<not> has_key (success v) ''error'')"
  using assms
  by (cases content) (simp_all add: snd_VaultClient_request on_response_def env_ok_success,
      simp_all add: success_def has_key_def)

theorem success_response_envelope_witness:
  "snd (VaultClient_request local_client (answering (Response (Json_doc (JList [JInt 1]))))
          ''GET'' ''/vault/'' None [] None) = Inr (success (JList [JInt 1]))
   \<and> snd (VaultClient_request local_client (answering (Response (Not_json ''# Title'')))
          ''GET'' ''/vault/'' None [] None) = Inr (success (JStr ''# Title''))
   \<and> snd (VaultClient_request local_client (answering (Response Empty))
          ''GET'' ''/vault/'' None [] None) = Inr (success JNull)"
  using success_response_envelope [of "answering (Response (Json_doc (JList [JInt 1])))"
      local_client "''GET''" "''/vault/''" None "[]" None "Json_doc (JList [JInt 1])"]
    success_response_envelope [of "answering (Response (Not_json ''# Title''))"
      local_client "''GET''" "''/vault/''" None "[]" None "Not_json ''# Title''"]
    success_response_envelope [of "answering (Response Empty)"
      local_client "''GET''" "''/vault/''" None "[]" None Empty]
  by (simp add: answering_def)

text \<open>
  Claim C2 as stated fails for a success response whose body is not UTF-8, the single
  byte 0xFF for one: \<^verbatim>\<open>content.decode('utf-8')\<close> raises \<^verbatim>\<open>UnicodeDecodeError\<close>, which
  \<^verbatim>\<open>except json.JSONDecodeError\<close> does not catch, and no envelope is returned.
\<close>

theorem success_response_envelope_counterexample:
  "snd (VaultClient_request local_client (answering (Response Invalid_utf8))
          ''GET'' ''/vault/'' None [] None) = Inl UnicodeDecodeError"
  by (simp add: snd_VaultClient_request answering_def on_response_def)

text \<open>
  Claim C3, as amended: when the network answers with an HTTP error whose body is
  absent, empty or decodes as UTF-8, \<^verbatim>\<open>_request\<close> returns a failure envelope that
  holds the status code. Its message is the \<^verbatim>\<open>message\<close> field of the body when the body
  is a JSON object with that field, and \<^verbatim>\<open>str(e)\<close>, the text
  \<^verbatim>\<open>HTTP Error <code>: <reason>\<close>, in every other case.
\<close>

theorem http_error_envelope:
  assumes "T (build_request self method path data headers ct) = HTTPError code msg fp"
    and "fp \<noteq> Some Invalid_utf8"
  shows "(\<forall>d v. fp = Some (Json_doc (JObj d)) \<and> dict_get d ''message'' = Some v \<longrightarrow>
            snd (VaultClient_request self T method path data headers ct) =
              Inr [(''ok'', JBool False), (''error'', v), (''code'', JInt code)])
       \<and> ((\<forall>d. fp = Some (Json_doc (JObj d)) \<longrightarrow> dict_get d ''message'' = None) \<longrightarrow>
            snd (VaultClient_request self T method path data headers ct) =
              Inr [(''ok'', JBool False), (''error'', JStr (str_HTTPError code msg)),
                   (''code'', JInt code)])
       \<and> (\<exists>m. snd (VaultClient_request self T method path data headers ct) =
              Inr [(''ok'', JBool False), (''error'', m), (''code'', JInt code)])"
proof -
  have r: "snd (VaultClient_request self T method path data headers ct) = on_http_error code msg fp"
    using assms(1) by (simp add: snd_VaultClient_request)
  show ?thesis
  proof (cases fp)
    case None
    then show ?thesis by (simp add: r on_http_error_def)
  next
    case (Some b)
    show ?thesis
    proof (cases b)
      case (Json_doc j)
      with Some show ?thesis
        by (cases j) (auto simp: r on_http_error_def dict_get_default_def dict_get_def)
    qed (use Some assms(2) in \<open>simp_all add: r on_http_error_def\<close>)
  qed
qed

theorem http_error_envelope_witness:
  "snd (VaultClient_request local_client
          (answering (HTTPError 404 ''Not Found''
             (Some (Json_doc (JObj [(''errorCode'', JInt 40400), (''message'', JStr ''File not found'')])))))
          ''GET'' ''/vault/x.md'' None [] None)
     = Inr [(''ok'', JBool False), (''error'', JStr ''File not found''), (''code'', JInt 404)]
   \<and> snd (VaultClient_request local_client
          (answering (HTTPError 502 ''Bad Gateway'' (Some (Not_json ''<html>''))))
          ''GET'' ''/vault/x.md'' None [] None)
     = Inr [(''ok'', JBool False), (''error'', JStr ''HTTP Error 502: Bad Gateway''),
            (''code'', JInt 502)]"
proof -
  let ?b = "Some (Json_doc (JObj [(''errorCode'', JInt 40400), (''message'', JStr ''File not found'')]))"
  have "str_HTTPError 502 ''Bad Gateway'' = ''HTTP Error 502: Bad Gateway''"
    by (simp add: str_HTTPError_def str_int_def digit_char_def)
  then show ?thesis
    using http_error_envelope [of "answering (HTTPError 404 ''Not Found'' ?b)"
        local_client "''GET''" "''/vault/x.md''" None "[]" None 404 "''Not Found''" ?b]
      http_error_envelope [of "answering (HTTPError 502 ''Bad Gateway'' (Some (Not_json ''<html>'')))"
        local_client "''GET''" "''/vault/x.md''" None "[]" None 502 "''Bad Gateway''"
        "Some (Not_json ''<html>'')"]
    by (simp add: answering_def dict_get_def)
qed

text \<open>
  Claim C3 as stated fails for an HTTP error whose body is not UTF-8: the body is
  decoded outside the inner \<^verbatim>\<open>try\<close>, so the \<^verbatim>\<open>UnicodeDecodeError\<close> leaves
  \<^verbatim>\<open>_request\<close> and no envelope, hence no status code, is returned.
\<close>

theorem http_error_envelope_counterexample:
  "snd (VaultClient_request local_client
          (answering (HTTPError 500 ''Internal Server Error'' (Some Invalid_utf8)))
          ''GET'' ''/vault/x.md'' None [] None) = Inl UnicodeDecodeError"
  by (simp add: snd_VaultClient_request answering_def on_http_error_def)

section \<open>Metadata only\<close>

lemma map_of_dict_pop: "map_of (dict_pop d k) = (map_of d)(k := None)"
  by (induction d) (auto simp: dict_pop_def)

text \<open>
  Claim C7: when the network answers the request of \<^verbatim>\<open>get_note\<close> with a JSON object,
  \<^verbatim>\<open>get_note\<close> with the metadata-only flag returns the success envelope of that object
  without its \<^verbatim>\<open>content\<close> field: the other fields are the same, in the same order.
\<close>

theorem metadata_only_removes_content:
  assumes "T (fst (get_note self T path True)) = Response (Json_doc (JObj d))"
  shows "snd (get_note self T path True) = Inr (success (JObj (dict_pop d ''content'')))
       \<and> dict_pop d ''content'' = filter (\<lambda>kv. fst kv \<noteq> ''content'') d
       \<and> dict_get (dict_pop d ''content'') ''content'' = None
       \<and> (\<forall>k. k \<noteq> ''content'' \<longrightarrow> dict_get (dict_pop d ''content'') k = dict_get d k)"
proof -
  let ?call = "VaultClient_request self T ''GET'' (''/vault/'' @ quote path) None
                 [(''Accept'', Some ''application/vnd.olrapi.note+json'')] None"
  have f: "fst (get_note self T path True) = fst ?call"
    by (simp add: get_note_def Let_def case_prod_beta)
  with assms have "snd ?call = Inr (success (JObj d))"
    by (simp add: fst_VaultClient_request snd_VaultClient_request on_response_def)
  then have "snd (get_note self T path True) = Inr (success (JObj (dict_pop d ''content'')))"
    by (simp add: get_note_def Let_def case_prod_beta success_simps)
  then show ?thesis
    by (simp add: dict_get_def map_of_dict_pop) (simp add: dict_pop_def)
qed

theorem metadata_only_removes_content_witness:
  "snd (get_note local_client
          (answering (Response (Json_doc
             (JObj [(''content'', JStr ''hello''), (''tags'', JList [JStr ''x''])]))))
          ''note.md'' True)
     = Inr (success (JObj [(''tags'', JList [JStr ''x''])]))"
  using metadata_only_removes_content [of
      "answering (Response (Json_doc (JObj [(''content'', JStr ''hello''), (''tags'', JList [JStr ''x''])])))"
      local_client "''note.md''" "[(''content'', JStr ''hello''), (''tags'', JList [JStr ''x''])]"]
  by (simp add: answering_def)

section \<open>Paths of the requests\<close>

lemma hex_digit_safe: "d < 16 \<Longrightarrow> always_safe (hex_digit d)"
proof -
  assume "d < 16"
  then have "hex_digit d \<in> set ''0123456789ABCDEF''"
    unfolding hex_digit_def by (intro nth_mem) simp
  then show ?thesis
    by (auto simp: always_safe_def)
qed

lemma percent_byte_chars:
  "b < 256 \<Longrightarrow> set (percent_byte b) \<subseteq> insert CHR ''%'' {c. always_safe c}"
  by (auto simp: percent_byte_def intro!: hex_digit_safe)

lemma utf8_encode_char_bytes: "b \<in> set (utf8_encode_char c) \<Longrightarrow> b < 256"
proof -
  have "(of_char c :: nat) < 256"
    by (rule String.nat_of_char_less_256)
  then have "(of_char c :: nat) div 64 < 4" and "(of_char c :: nat) mod 64 < 64"
    by arith+
  moreover assume "b \<in> set (utf8_encode_char c)"
  ultimately show ?thesis
    by (auto simp: utf8_encode_char_def Let_def split: if_splits)
qed

lemma quote_char_chars: "set (quote_char c) \<subseteq> insert CHR ''%'' {c. always_safe c}"
proof (cases "always_safe c")
  case True
  then show ?thesis by (simp add: quote_char_def)
next
  case False
  have "set (percent_byte b) \<subseteq> insert CHR ''%'' {c. always_safe c}"
    if "b \<in> set (utf8_encode_char c)" for b
    using that by (intro percent_byte_chars utf8_encode_char_bytes)
  with False show ?thesis
    by (auto simp: quote_char_def)
qed

lemma quote_chars: "set (quote s) \<subseteq> insert CHR ''%'' {c. always_safe c}"
  using quote_char_chars by (fastforce simp: quote_def)

lemma slash_not_safe: "\<not> always_safe CHR ''/''"
  by (simp add: always_safe_def)

lemma quote_no_slash: "CHR ''/'' \<notin> set (quote s)"
  using quote_chars [of s] slash_not_safe by auto

lemma quote_append: "quote (a @ b) = quote a @ quote b"
  by (simp add: quote_def)

lemma quote_simps:
  "quote [] = []"
  "quote (c # s) = quote_char c @ quote s"
  by (simp_all add: quote_def)

lemmas quote_eval = quote_simps quote_char_def always_safe_def utf8_encode_char_def
  percent_byte_def hex_digit_def Let_def

lemma quote_slash: "quote (CHR ''/'' # name) = ''%2F'' @ quote name"
  by (simp add: quote_eval)

lemma fst_operations:
  "fst (get_note self T path m) =
     build_request self ''GET'' (''/vault/'' @ quote path) None
       [(''Accept'', Some ''application/vnd.olrapi.note+json'')] None"
  "fst (create_note self T path content) =
     build_request self ''PUT'' (''/vault/'' @ quote path) (Some content) [] (Some ''text/markdown'')"
  "fst (append_note self T path content) =
     build_request self ''POST'' (''/vault/'' @ quote path) (Some content) [] (Some ''text/markdown'')"
  "fst (patch_note self T path target_type target operation content content_type) =
     build_request self ''PATCH'' (''/vault/'' @ quote path) (Some content)
       [(''Operation'', Some operation), (''Target-Type'', Some target_type), (''Target'', target)]
       (Some content_type)"
  "fst (delete_note self T path) =
     build_request self ''DELETE'' (''/vault/'' @ quote path) None [] None"
  "fst (list_dir self T path) =
     build_request self ''GET''
       (if path \<noteq> [] then ''/vault/'' @ quote (rstrip_slash path) @ ''/'' else ''/vault/'')
       None [] None"
  by (simp_all add: get_note_def create_note_def append_note_def patch_note_def delete_note_def
      list_dir_def Let_def case_prod_beta fst_VaultClient_request)

lemma req_url_build_request:
  "req_url (build_request self method path data headers ct) = base_url self @ path"
  by (simp add: build_request_def Let_def)

lemma req_method_build_request:
  "req_method (build_request self method path data headers ct) = method"
  by (simp add: build_request_def Let_def)

text \<open>
  Claim C6: each of the five document operations requests \<^verbatim>\<open>/vault/\<close> followed by the
  whole reference quoted as one segment: the quoted text holds nothing but letters,
  digits, the characters \<^verbatim>\<open>_.-~\<close> and percent escapes, so no slash, and every slash of
  the reference is written \<^verbatim>\<open>%2F\<close>. A listing of a path that is not empty requests the
  path without its trailing slashes, quoted the same way, followed by one slash; a
  listing of the empty path requests \<^verbatim>\<open>/vault/\<close> and quotes nothing.
\<close>

theorem note_reference_encoding:
  "req_url (fst (get_note self T path m)) = base_url self @ ''/vault/'' @ quote path
   \<and> req_url (fst (create_note self T path content)) = base_url self @ ''/vault/'' @ quote path
   \<and> req_url (fst (append_note self T path content)) = base_url self @ ''/vault/'' @ quote path
   \<and> req_url (fst (patch_note self T path target_type target operation content content_type))
       = base_url self @ ''/vault/'' @ quote path
   \<and> req_url (fst (delete_note self T path)) = base_url self @ ''/vault/'' @ quote path
   \<and> CHR ''/'' \<notin> set (quote path)
   \<and> set (quote path) \<subseteq> insert CHR ''%'' {c. always_safe c}
   \<and> quote (dir @ ''/'' @ name) = quote dir @ ''%2F'' @ quote name
   \<and> (path \<noteq> [] \<longrightarrow>
        req_url (fst (list_dir self T path))
          = base_url self @ ''/vault/'' @ quote (rstrip_slash path) @ ''/'')
   \<and> req_url (fst (list_dir self T [])) = base_url self @ ''/vault/''"
  using quote_no_slash [of path] quote_chars [of path]
  by (simp add: fst_operations req_url_build_request quote_append quote_slash)

lemma base_url_local_client: "base_url local_client = ''https://127.0.0.1:27124''"
  by (simp add: local_client_def VaultClient_init_def rstrip_slash_def)

theorem note_reference_encoding_witness:
  "req_url (fst (get_note local_client (answering (Response Empty)) ''dir/my note.md'' False))
     = ''https://127.0.0.1:27124/vault/dir%2Fmy%20note.md''
   \<and> req_url (fst (list_dir local_client (answering (Response Empty)) ''dir/sub/''))
     = ''https://127.0.0.1:27124/vault/dir%2Fsub/''
   \<and> req_url (fst (list_dir local_client (answering (Response Empty)) []))
     = ''https://127.0.0.1:27124/vault/''"
  using note_reference_encoding [of local_client "answering (Response Empty)" "''dir/my note.md''" False]
    note_reference_encoding [of local_client "answering (Response Empty)" "''dir/sub/''"]
  by (simp add: base_url_local_client rstrip_slash_def quote_eval)

section \<open>Periodic notes\<close>

lemma digit_val_19: "is_digit19 c \<Longrightarrow> 0 < digit_val c"
  by (auto simp: is_digit19_def digit_val_def)

lemma parse_month_pos: "parse_month s = Some (m, rest) \<Longrightarrow> 0 < m"
  by (auto simp: parse_month_def parse_month2_def parse_month1_def digit_val_19
      split: list.splits if_splits option.splits)

lemma parse_day_pos: "parse_day s = Some d \<Longrightarrow> 0 < d"
proof -
  have "0 < digit_val CHR ''1''" and "0 < digit_val CHR ''2''"
    by (simp_all add: digit_val_def)
  moreover assume "parse_day s = Some d"
  ultimately show ?thesis
    by (auto simp: parse_day_def digit_val_19 split: list.splits if_splits)
qed

lemma strptime_ymd_pos:
  assumes "strptime_ymd s = Some (y, m, d)"
  shows "0 < y \<and> 0 < m \<and> 0 < d"
  using assms
  by (auto simp: strptime_ymd_def split: option.splits prod.splits if_splits
      dest: parse_month_pos parse_day_pos)

lemma fst_daily_append:
  "fst (daily_append self T content period year month day) =
     build_request self ''POST''
       (if truthy_int year \<and> truthy_int month \<and> truthy_int day
        then ''/periodic/'' @ period @ ''/'' @ str_int (the year) @ ''/'' @ str_int (the month)
               @ ''/'' @ str_int (the day) @ ''/''
        else ''/periodic/'' @ period @ ''/'')
       (Some content) [] (Some ''text/markdown'')"
  by (simp add: daily_append_def Let_def fst_VaultClient_request)

lemma fst_run_daily_no_date:
  "fst (run_daily client T None period content) =
     [build_request client ''POST'' (''/periodic/'' @ period @ ''/'') (Some content) []
        (Some ''text/markdown'')]"
  by (simp add: run_daily_def Let_def truthy_str_def after_def fst_daily_append truthy_int_def)

lemma fst_run_daily_date:
  assumes "date \<noteq> []" and "strptime_ymd date = Some (y, m, d)"
  shows "fst (run_daily client T (Some date) period content) =
     [build_request client ''POST''
        (''/periodic/'' @ period @ ''/'' @ str_int y @ ''/'' @ str_int m @ ''/'' @ str_int d @ ''/'')
        (Some content) [] (Some ''text/markdown'')]"
  using assms strptime_ymd_pos [OF assms(2)]
  by (simp add: run_daily_def Let_def truthy_str_def fst_daily_append truthy_int_def)

lemmas strptime_eval = strptime_ymd_def parse_year_def parse_month_def parse_month2_def
  parse_month1_def parse_day_def is_digit_def is_digit19_def digit_val_def days_in_month_def
  is_leap_def

lemma strptime_example: "strptime_ymd ''2024-03-05'' = Some (2024, 3, 5)"
  by (simp add: strptime_eval)

lemma str_int_examples:
  "str_int 2024 = ''2024''" "str_int 3 = ''3''" "str_int 5 = ''5''"
  by (simp_all add: str_int_def digit_char_def)

text \<open>
  Claim C9: a periodic append with the period \<^verbatim>\<open>daily\<close> and no date hands one request
  to the network, a POST to \<^verbatim>\<open>/periodic/daily/\<close>; with the date \<^verbatim>\<open>2024-03-05\<close> it is a
  POST to \<^verbatim>\<open>/periodic/daily/2024/3/5/\<close>. In general, for a date the parser accepts as
  year \<open>y\<close>, month \<open>m\<close> and day \<open>d\<close>, it is a POST to the period's path followed by
  the three numbers in decimal, each closed by a slash.
\<close>

theorem periodic_append_request:
  "map req_method (fst (run_daily client T None ''daily'' content)) = [''POST'']
   \<and> map req_url (fst (run_daily client T None ''daily'' content))
       = [base_url client @ ''/periodic/daily/'']
   \<and> map req_method (fst (run_daily client T (Some ''2024-03-05'') ''daily'' content)) = [''POST'']
   \<and> map req_url (fst (run_daily client T (Some ''2024-03-05'') ''daily'' content))
       = [base_url client @ ''/periodic/daily/2024/3/5/'']
   \<and> (\<forall>date y m d period. date \<noteq> [] \<and> strptime_ymd date = Some (y, m, d) \<longrightarrow>
         map req_method (fst (run_daily client T (Some date) period content)) = [''POST'']
         \<and> map req_url (fst (run_daily client T (Some date) period content))
             = [base_url client @ ''/periodic/'' @ period @ ''/'' @ str_int y @ ''/'' @ str_int m
                  @ ''/'' @ str_int d @ ''/''])"
proof -
  have "fst (run_daily client T (Some ''2024-03-05'') ''daily'' content) =
     [build_request client ''POST''
        (''/periodic/'' @ ''daily'' @ ''/'' @ str_int 2024 @ ''/'' @ str_int 3 @ ''/'' @ str_int 5 @ ''/'')
        (Some content) [] (Some ''text/markdown'')]"
    by (rule fst_run_daily_date [OF _ strptime_example]) simp
  then show ?thesis
    by (simp add: fst_run_daily_no_date fst_run_daily_date req_url_build_request
        req_method_build_request str_int_examples)
qed

theorem periodic_append_request_witness:
  "map req_url (fst (main (local_environ (answering (Response Empty)))
                       (CmdDaily (Some ''2024-03-05'') PDaily (inline ''- a line''))))
     = [''https://127.0.0.1:27124/periodic/daily/2024/3/5/'']
   \<and> map req_url (fst (main (local_environ (answering (Response Empty)))
                       (CmdDaily None PDaily (inline ''- a line''))))
     = [''https://127.0.0.1:27124/periodic/daily/'']
   \<and> map req_url (fst (main (local_environ (answering (Response Empty)))
                       (CmdDaily (Some ''2023-12-31'') PWeekly (inline ''- a line''))))
     = [''https://127.0.0.1:27124/periodic/weekly/2023/12/31/'']"
proof -
  let ?c = "VaultClient_init ''https://127.0.0.1:27124'' ''secret''"
  have b: "base_url ?c = ''https://127.0.0.1:27124''"
    by (simp add: VaultClient_init_def rstrip_slash_def)
  have d: "strptime_ymd ''2023-12-31'' = Some (2023, 12, 31)"
    by (simp add: strptime_eval)
  have s: "str_int 2023 = ''2023''" "str_int 12 = ''12''" "str_int 31 = ''31''"
    by (simp_all add: str_int_def digit_char_def)
  show ?thesis
    using periodic_append_request [of ?c "answering (Response Empty)" "''- a line''"] d
    by (simp add: main_def run_def local_environ_def inline_def truthy_str_def get_content_def
        b s)
qed

lemma not_ok_failure: "\<not> env_ok (failure msg)"
  by (simp add: failure_def env_ok_def dict_get_def)

lemma acknowledge_failure: "acknowledge ack (failure msg) = failure msg"
  by (simp add: acknowledge_def not_ok_failure)

lemma not_ok_invalid_date: "\<not> env_ok (invalid_date date)"
  by (simp add: invalid_date_def not_ok_failure)

lemma acknowledge_invalid_date: "acknowledge ack (invalid_date date) = invalid_date date"
  by (simp add: invalid_date_def acknowledge_failure)

text \<open>
  Claim C8, as amended: for every date string that is not empty and that the parser
  rejects, the \<^verbatim>\<open>daily\<close> branch hands no request to the network and gives the
  failure envelope whose message is \<^verbatim>\<open>Invalid date format: <date>. Use YYYY-MM-DD\<close>;
  so does a run of \<^verbatim>\<open>main\<close> whose key is set and whose content could be read.
\<close>

theorem invalid_date_fails_locally:
  assumes "date \<noteq> []" and "strptime_ymd date = None"
  shows "run_daily client T (Some date) period content = ([], Inr (invalid_date date))
       \<and> invalid_date date
           = [(''ok'', JBool False),
              (''error'', JStr (''Invalid date format: '' @ date @ ''. Use YYYY-MM-DD''))]
       \<and> \<not> env_ok (invalid_date date)
       \<and> (\<forall>E p src. truthy_str (OBSIDIAN_API_KEY E) \<and> get_content E src = Inr content \<longrightarrow>
             main E (CmdDaily (Some date) p src) = ([], Inr (invalid_date date)))"
proof -
  have r: "run_daily client T (Some date) period content = ([], Inr (invalid_date date))"
    using assms by (simp add: run_daily_def Let_def truthy_str_def acknowledge_invalid_date)
  have e: "invalid_date date
           = [(''ok'', JBool False),
              (''error'', JStr (''Invalid date format: '' @ date @ ''. Use YYYY-MM-DD''))]"
    by (simp add: invalid_date_def failure_def)
  have m: "main E (CmdDaily (Some date) p src) = ([], Inr (invalid_date date))"
    if "truthy_str (OBSIDIAN_API_KEY E)" and "get_content E src = Inr content" for E p src
    using that assms by (simp add: main_def run_def run_daily_def Let_def truthy_str_def
        acknowledge_invalid_date)
  from r e m show ?thesis
    using not_ok_invalid_date [of date] by blast
qed

theorem invalid_date_fails_locally_witness:
  "main (local_environ (answering (Response Empty)))
     (CmdDaily (Some ''2024-13-40'') PDaily (inline ''- a line''))
   = ([], Inr [(''ok'', JBool False),
               (''error'', JStr ''Invalid date format: 2024-13-40. Use YYYY-MM-DD'')])"
proof -
  have "strptime_ymd ''2024-13-40'' = None"
    by (simp add: strptime_eval)
  then show ?thesis
    using invalid_date_fails_locally [of "''2024-13-40''" _ _ _ "''- a line''"]
    by (simp add: local_environ_def inline_def truthy_str_def get_content_def)
qed

text \<open>
  Claim C8 as stated fails for the empty date string (\<^verbatim>\<open>--date ''\<close>), which is no
  date: \<^verbatim>\<open>if args.date\<close> takes it for an absent date, and the run posts to the current
  daily note and succeeds.
\<close>

theorem invalid_date_fails_locally_counterexample:
  "strptime_ymd [] = None
   \<and> main (local_environ (answering (Response Empty))) (CmdDaily (Some []) PDaily (inline ''- a line''))
     = ([\<lparr>req_method = ''POST'', req_url = ''https://127.0.0.1:27124/periodic/daily/'',
          req_data = Some ''- a line'',
          req_headers = [(''Authorization'', Some ''Bearer secret''),
                         (''Content-Type'', Some ''text/markdown'')]\<rparr>],
        Inr (success (JObj [(''appended_to'', JStr ''daily note'')])))"
  by (simp add: strptime_eval main_def run_def local_environ_def inline_def truthy_str_def
      get_content_def run_daily_def after_def daily_append_def truthy_int_def Let_def
      VaultClient_request_def build_request_def build_headers_def VaultClient_init_def
      rstrip_slash_def answering_def on_response_def acknowledge_def success_simps)

section \<open>The invariant of the envelope\<close>

lemma invariant_success: "envelope_invariant (success v)"
  by (simp add: envelope_invariant_def success_def has_key_def dict_get_def)

lemma invariant_failure: "envelope_invariant (failure msg)"
  by (simp add: envelope_invariant_def failure_def has_key_def dict_get_def)

lemma invariant_on_response: "on_response content = Inr result \<Longrightarrow> envelope_invariant result"
  by (cases content) (auto simp: on_response_def invariant_success)

lemma invariant_coded:
  "envelope_invariant [(''ok'', JBool False), (''error'', m), (''code'', c)]"
  by (simp add: envelope_invariant_def has_key_def dict_get_def)

lemma on_http_error_cases:
  "on_http_error code msg fp = Inl UnicodeDecodeError
   \<or> (\<exists>m. on_http_error code msg fp = Inr [(''ok'', JBool False), (''error'', m), (''code'', JInt code)])"
proof (cases fp)
  case None
  then show ?thesis by (simp add: on_http_error_def)
next
  case (Some b)
  show ?thesis
  proof (cases b)
    case (Json_doc j)
    with Some show ?thesis by (cases j) (simp_all add: on_http_error_def)
  qed (use Some in \<open>simp_all add: on_http_error_def\<close>)
qed

lemma invariant_on_http_error:
  "on_http_error code msg fp = Inr result \<Longrightarrow> envelope_invariant result"
  using on_http_error_cases [of code msg fp] by (auto simp: invariant_coded)

lemma invariant_request:
  assumes "snd (VaultClient_request self T method path data headers ct) = Inr result"
  shows "envelope_invariant result"
  using assms
  by (cases "T (build_request self method path data headers ct)")
     (auto simp: snd_VaultClient_request invariant_failure
           dest: invariant_on_response invariant_on_http_error)

lemma invariant_set_data:
  assumes "envelope_invariant result" and "env_ok result"
  shows "envelope_invariant (dict_set result ''data'' v)"
proof -
  from assms have "has_key result ''data''"
    by (auto simp: envelope_invariant_def env_ok_def split: option.splits)
  with assms(1) show ?thesis
    by (simp add: envelope_invariant_def has_key_dict_set dict_get_dict_set)
qed

lemma invariant_acknowledge:
  "envelope_invariant result \<Longrightarrow> envelope_invariant (acknowledge ack result)"
  by (simp add: acknowledge_def invariant_set_data)

lemma invariant_get_note:
  assumes "snd (get_note self T path m) = Inr result"
  shows "envelope_invariant result"
proof -
  let ?call = "VaultClient_request self T ''GET'' (''/vault/'' @ quote path) None
                 [(''Accept'', Some ''application/vnd.olrapi.note+json'')] None"
  from assms obtain r0 where r0: "snd ?call = Inr r0"
    by (cases "snd ?call") (simp_all add: get_note_def Let_def case_prod_beta)
  then have i0: "envelope_invariant r0"
    by (rule invariant_request)
  from assms r0 have "result = r0 \<or> (env_ok r0 \<and> (\<exists>v. result = dict_set r0 ''data'' v))"
    by (auto simp: get_note_def Let_def case_prod_beta split: if_splits option.splits json.splits)
  with i0 show ?thesis
    by (auto simp: invariant_set_data)
qed

lemma invariant_shape_search:
  assumes "envelope_invariant result" and "shape_search n result = Inr result'"
  shows "envelope_invariant result'"
proof -
  from assms(2) have "result' = result \<or> (env_ok result \<and> (\<exists>v. result' = dict_set result ''data'' v))"
    by (auto simp: shape_search_def split: if_splits option.splits json.splits sum.splits)
  with assms(1) show ?thesis
    by (auto simp: invariant_set_data)
qed

lemma invariant_shape_get:
  assumes "envelope_invariant result" and "shape_get n result = Inr result'"
  shows "envelope_invariant result'"
proof -
  from assms(2) have "result' = result \<or> (env_ok result \<and> (\<exists>v. result' = dict_set result ''data'' v))"
    by (auto simp: shape_get_def split: if_splits option.splits json.splits sum.splits)
  with assms(1) show ?thesis
    by (auto simp: invariant_set_data)
qed

lemma invariant_after:
  assumes "snd (after call shape) = Inr result'"
    and "\<And>result. snd call = Inr result \<Longrightarrow> envelope_invariant result"
    and "\<And>result. envelope_invariant result \<Longrightarrow> shape result = Inr result' \<Longrightarrow>
           envelope_invariant result'"
  shows "envelope_invariant result'"
  using assms by (cases "snd call") (auto simp: after_def)

lemma invariant_after_acknowledge:
  assumes "snd (after call (\<lambda>result. Inr (acknowledge ack result))) = Inr result'"
    and "\<And>result. snd call = Inr result \<Longrightarrow> envelope_invariant result"
  shows "envelope_invariant result'"
  using assms by (cases "snd call") (auto simp: after_def invariant_acknowledge)

lemma invariant_daily_append:
  "snd (daily_append self T content period y m d) = Inr result \<Longrightarrow> envelope_invariant result"
  by (auto simp: daily_append_def Let_def dest: invariant_request)

lemma invariant_run_daily:
  assumes "snd (run_daily client T date period content) = Inr result"
  shows "envelope_invariant result"
proof -
  have inv: "envelope_invariant (acknowledge ack (invalid_date d))" for ack d
    by (simp add: invalid_date_def acknowledge_failure invariant_failure)
  show ?thesis
  proof (cases "truthy_str date")
    case False
    with assms show ?thesis
      by (auto simp: run_daily_def Let_def split: sum.splits
          intro!: invariant_acknowledge dest: invariant_daily_append)
  next
    case True
    show ?thesis
    proof (cases "strptime_ymd (the date)")
      case None
      with True assms show ?thesis
        by (auto simp: run_daily_def Let_def inv)
    next
      case (Some ymd)
      obtain y m d where ymd: "ymd = (y, m, d)" by (cases ymd)
      let ?call = "daily_append client T content period (Some y) (Some m) (Some d)"
      show ?thesis
      proof (cases "snd ?call")
        case (Inl e)
        with True Some ymd assms show ?thesis
          by (auto simp: run_daily_def Let_def inv split: if_splits)
      next
        case (Inr r0)
        then have "envelope_invariant r0" by (rule invariant_daily_append)
        with True Some ymd Inr assms show ?thesis
          by (auto simp: run_daily_def Let_def invariant_acknowledge)
      qed
    qed
  qed
qed

lemma invariant_run:
  assumes "snd (run client E cmd) = Inr result"
  shows "envelope_invariant result"
proof (cases cmd)
  case (CmdSearch query max_results context_length)
  with assms show ?thesis
    by (auto simp: run_def search_def Let_def
        elim!: invariant_after intro: invariant_request invariant_shape_search)
next
  case (CmdGet path metadata_only max_chars)
  with assms show ?thesis
    by (auto simp: run_def elim!: invariant_after intro: invariant_get_note invariant_shape_get)
next
  case (CmdList path)
  with assms show ?thesis
    by (auto simp: run_def list_dir_def Let_def after_def split: if_splits sum.splits
        dest: invariant_request)
next
  case (CmdCreate path src)
  with assms show ?thesis
    by (auto simp: run_def create_note_def Let_def split: sum.splits
        elim!: invariant_after_acknowledge intro: invariant_request)
next
  case (CmdAppend path src)
  with assms show ?thesis
    by (auto simp: run_def append_note_def Let_def split: sum.splits
        elim!: invariant_after_acknowledge intro: invariant_request)
next
  case (CmdPatch path heading frontmatter block operation src)
  with assms show ?thesis
    by (auto simp: run_def patch_note_def Let_def split: sum.splits if_splits
        elim!: invariant_after_acknowledge intro: invariant_request)
next
  case (CmdDaily date period src)
  with assms show ?thesis
    by (auto simp: run_def Let_def split: sum.splits dest: invariant_run_daily)
next
  case (CmdDelete path)
  with assms show ?thesis
    by (auto simp: run_def delete_note_def Let_def
        elim!: invariant_after_acknowledge intro: invariant_request)
qed

text \<open>
  Claim C1: whatever the command, the surroundings and the answer of the network, the
  envelope a run of \<^verbatim>\<open>main\<close> returns has exactly one of the keys \<^verbatim>\<open>data\<close> and
  \<^verbatim>\<open>error\<close>, and its \<^verbatim>\<open>ok\<close> is true exactly when it is \<^verbatim>\<open>data\<close>. This covers the
  envelope for a missing key, those of \<^verbatim>\<open>_request\<close> (success, HTTP error, connection
  failure), the one for an unparsable date, and all of them after shaping.
\<close>

theorem envelope_invariant_holds:
  assumes "snd (main E cmd) = Inr result"
  shows "envelope_invariant result"
  using assms
  by (auto simp: main_def Let_def invariant_failure split: if_splits dest: invariant_run)

lemmas run_eval = main_def run_def local_environ_def inline_def truthy_str_def get_content_def
  run_daily_def after_def daily_append_def truthy_int_def Let_def VaultClient_request_def
  build_request_def build_headers_def VaultClient_init_def rstrip_slash_def answering_def
  on_response_def on_http_error_def acknowledge_def list_dir_def delete_note_def

theorem envelope_invariant_holds_witness:
  "snd (main (local_environ (answering (Response (Json_doc (JList [JStr ''a.md''])))))
          (CmdList [])) = Inr (success (JList [JStr ''a.md'']))
   \<and> envelope_invariant (success (JList [JStr ''a.md'']))
   \<and> snd (main (local_environ (answering (HTTPError 404 ''Not Found'' None)))
          (CmdDelete ''a.md''))
       = Inr [(''ok'', JBool False), (''error'', JStr ''HTTP Error 404: Not Found''),
              (''code'', JInt 404)]
   \<and> envelope_invariant [(''ok'', JBool False), (''error'', JStr ''HTTP Error 404: Not Found''),
                          (''code'', JInt 404)]
   \<and> snd (main (local_environ (answering (URLError ''[Errno 111] Connection refused'')))
          (CmdList [])) = Inr (failure ''Connection failed: [Errno 111] Connection refused'')
   \<and> envelope_invariant (failure ''Connection failed: [Errno 111] Connection refused'')
   \<and> snd (main (local_environ (answering (Response Empty)))
          (CmdDaily (Some ''2024-13-40'') PDaily (inline ''- a line'')))
       = Inr (failure ''Invalid date format: 2024-13-40. Use YYYY-MM-DD'')
   \<and> envelope_invariant (failure ''Invalid date format: 2024-13-40. Use YYYY-MM-DD'')"
proof -
  have r1: "snd (main (local_environ (answering (Response (Json_doc (JList [JStr ''a.md''])))))
          (CmdList [])) = Inr (success (JList [JStr ''a.md'']))"
    by (simp add: run_eval)
  have s: "str_HTTPError 404 ''Not Found'' = ''HTTP Error 404: Not Found''"
    by (simp add: str_HTTPError_def str_int_def digit_char_def)
  have r2: "snd (main (local_environ (answering (HTTPError 404 ''Not Found'' None)))
          (CmdDelete ''a.md''))
       = Inr [(''ok'', JBool False), (''error'', JStr ''HTTP Error 404: Not Found''),
              (''code'', JInt 404)]"
    by (simp add: run_eval s env_ok_def dict_get_def)
  have r3: "snd (main (local_environ (answering (URLError ''[Errno 111] Connection refused'')))
          (CmdList [])) = Inr (failure ''Connection failed: [Errno 111] Connection refused'')"
    by (simp add: run_eval)
  have "strptime_ymd ''2024-13-40'' = None"
    by (simp add: strptime_eval)
  then have r4: "snd (main (local_environ (answering (Response Empty)))
          (CmdDaily (Some ''2024-13-40'') PDaily (inline ''- a line'')))
       = Inr (failure ''Invalid date format: 2024-13-40. Use YYYY-MM-DD'')"
    by (simp add: run_eval invalid_date_def acknowledge_failure del: acknowledge_def)
  show ?thesis
    using r1 r2 r3 r4 envelope_invariant_holds [OF r1] envelope_invariant_holds [OF r2]
      envelope_invariant_holds [OF r3] envelope_invariant_holds [OF r4]
    by simp
qed

section \<open>Shaping of search results\<close>

lemma map_exn_all:
  assumes "\<And>x. x \<in> set xs \<Longrightarrow> f x = Inr (g x)"
  shows "map_exn f xs = Inr (map g xs)"
  using assms by (induction xs) simp_all

lemma snippet_match:
  "is_match m \<Longrightarrow> snippet m = Inr (JStr (take 200 (match_context m)))"
  by (auto simp: is_match_def snippet_def match_context_def dict_get_default_def dict_get_def
      py_slice_to_def split: json.splits option.splits)

lemma snippets_of_matches:
  assumes "list_all is_match ms"
  shows "snippets_of (JList ms) = Inr (map (\<lambda>m. JStr (take 200 (match_context m))) (take 3 ms))"
proof -
  have "is_match m" if "m \<in> set (take 3 ms)" for m
    using that assms by (auto simp: list_all_iff dest: in_set_takeD)
  then have "map_exn snippet (take 3 ms) =
      Inr (map (\<lambda>m. JStr (take 200 (match_context m))) (take 3 ms))"
    by (intro map_exn_all snippet_match)
  then show ?thesis
    by (simp add: snippets_of_def py_slice_to_def)
qed

lemma simplify_item_hit:
  assumes "is_hit h"
  shows "simplify_item h =
     Inr (JObj ([(''path'', hit_field ''filename'' (JStr []) h),
                 (''score'', hit_field ''score'' (JInt 0) h)]
                @ (if hit_matches h = [] then []
                   else [(''snippets'',
                          JList (map (\<lambda>m. JStr (take 200 (match_context m)))
                                   (take 3 (hit_matches h))))])))"
proof -
  from assms obtain d where h: "h = JObj d"
    by (cases h) (simp_all add: is_hit_def)
  show ?thesis
  proof (cases "dict_get d ''matches''")
    case None
    then show ?thesis
      by (simp add: h simplify_item_def hit_field_def hit_matches_def dict_get_default_def
          dict_get_def Let_def)
  next
    case (Some v)
    with assms h obtain ms where v: "v = JList ms" and ms: "list_all is_match ms"
      by (cases v) (simp_all add: is_hit_def)
    have m: "dict_get_default d ''matches'' (JList []) = JList ms" "hit_matches (JObj d) = ms"
      using Some v by (simp_all add: hit_matches_def dict_get_default_def dict_get_def)
    show ?thesis
      by (simp add: h simplify_item_def m snippets_of_matches [OF ms] hit_field_def Let_def)
  qed
qed

lemma shape_search_hits:
  assumes "0 \<le> n" and "list_all is_hit hits"
  shows "shape_search n (success (JList hits)) =
     Inr (success (JList (map (\<lambda>h. JObj ([(''path'', hit_field ''filename'' (JStr []) h),
                 (''score'', hit_field ''score'' (JInt 0) h)]
                @ (if hit_matches h = [] then []
                   else [(''snippets'',
                          JList (map (\<lambda>m. JStr (take 200 (match_context m)))
                                   (take 3 (hit_matches h))))])))
            (take (nat n) hits))))"
proof -
  have "is_hit h" if "h \<in> set (take (nat n) hits)" for h
    using that assms(2) by (auto simp: list_all_iff dest: in_set_takeD)
  then have "map_exn simplify_item (take (nat n) hits) =
     Inr (map (\<lambda>h. JObj ([(''path'', hit_field ''filename'' (JStr []) h),
                 (''score'', hit_field ''score'' (JInt 0) h)]
                @ (if hit_matches h = [] then []
                   else [(''snippets'',
                          JList (map (\<lambda>m. JStr (take 200 (match_context m)))
                                   (take 3 (hit_matches h))))])))
            (take (nat n) hits))"
    by (intro map_exn_all simplify_item_hit)
  then show ?thesis
    using assms(1) by (simp add: shape_search_def success_simps py_slice_to_def)
qed

text \<open>
  Claim C5, as amended: for every list of search hits and every maximum count that is
  not negative, shaping succeeds and keeps the first \<open>min count (length hits)\<close> hits, in
  order. The entry of a hit holds \<^verbatim>\<open>path\<close> (the hit's \<^verbatim>\<open>filename\<close>, or the empty
  string) and \<^verbatim>\<open>score\<close> (the hit's, or 0); for a hit with no matches it holds nothing
  else; for a hit with matches it also holds \<^verbatim>\<open>snippets\<close>, the first 200 characters of
  the context of each of the first three matches.
\<close>

theorem search_shaping:
  assumes "0 \<le> n" and "list_all is_hit hits"
  shows "\<exists>entries. shape_search n (success (JList hits)) = Inr (success (JList entries))
     \<and> length entries = min (nat n) (length hits)
     \<and> (\<forall>i<length entries. \<exists>e. entries ! i = JObj e
          \<and> dict_get e ''path'' = Some (hit_field ''filename'' (JStr []) (hits ! i))
          \<and> dict_get e ''score'' = Some (hit_field ''score'' (JInt 0) (hits ! i))
          \<and> (hit_matches (hits ! i) = [] \<longrightarrow> map fst e = [''path'', ''score''])
          \<and> (hit_matches (hits ! i) \<noteq> [] \<longrightarrow>
               map fst e = [''path'', ''score'', ''snippets'']
               \<and> (\<exists>ss. dict_get e ''snippets'' = Some (JList (map JStr ss))
                    \<and> length ss = min 3 (length (hit_matches (hits ! i)))
                    \<and> (\<forall>j<length ss.
                          ss ! j = take 200 (match_context (hit_matches (hits ! i) ! j))
                          \<and> length (ss ! j) \<le> 200))))"
proof (intro exI conjI allI impI)
  show "shape_search n (success (JList hits)) =
     Inr (success (JList (map (\<lambda>h. JObj ([(''path'', hit_field ''filename'' (JStr []) h),
                 (''score'', hit_field ''score'' (JInt 0) h)]
                @ (if hit_matches h = [] then []
                   else [(''snippets'',
                          JList (map (\<lambda>m. JStr (take 200 (match_context m)))
                                   (take 3 (hit_matches h))))])))
            (take (nat n) hits))))"
    using assms by (rule shape_search_hits)
next
  show "length (map (\<lambda>h. JObj ([(''path'', hit_field ''filename'' (JStr []) h),
                 (''score'', hit_field ''score'' (JInt 0) h)]
                @ (if hit_matches h = [] then []
                   else [(''snippets'',
                          JList (map (\<lambda>m. JStr (take 200 (match_context m)))
                                   (take 3 (hit_matches h))))])))
            (take (nat n) hits)) = min (nat n) (length hits)"
    by (simp add: min.commute)
next
  fix i
  assume "i < length (map (\<lambda>h. JObj ([(''path'', hit_field ''filename'' (JStr []) h),
                 (''score'', hit_field ''score'' (JInt 0) h)]
                @ (if hit_matches h = [] then []
                   else [(''snippets'',
                          JList (map (\<lambda>m. JStr (take 200 (match_context m)))
                                   (take 3 (hit_matches h))))])))
            (take (nat n) hits))"
  then have i: "i < nat n" "i < length hits"
    by simp_all
  let ?h = "hits ! i"
  let ?ss = "map (\<lambda>m. take 200 (match_context m)) (take 3 (hit_matches ?h))"
  let ?e = "[(''path'', hit_field ''filename'' (JStr []) ?h),
             (''score'', hit_field ''score'' (JInt 0) ?h)]
            @ (if hit_matches ?h = [] then [] else [(''snippets'', JList (map JStr ?ss))])"
  have nth: "map (\<lambda>h. JObj ([(''path'', hit_field ''filename'' (JStr []) h),
                 (''score'', hit_field ''score'' (JInt 0) h)]
                @ (if hit_matches h = [] then []
                   else [(''snippets'',
                          JList (map (\<lambda>m. JStr (take 200 (match_context m)))
                                   (take 3 (hit_matches h))))])))
            (take (nat n) hits) ! i = JObj ?e"
    using i by (simp add: comp_def)
  have ss: "length ?ss = min 3 (length (hit_matches ?h))"
    "\<forall>j<length ?ss. ?ss ! j = take 200 (match_context (hit_matches ?h ! j))
                       \<and> length (?ss ! j) \<le> 200"
    by (simp_all add: min.commute)
  show "map (\<lambda>h. JObj ([(''path'', hit_field ''filename'' (JStr []) h),
                 (''score'', hit_field ''score'' (JInt 0) h)]
                @ (if hit_matches h = [] then []
                   else [(''snippets'',
                          JList (map (\<lambda>m. JStr (take 200 (match_context m)))
                                   (take 3 (hit_matches h))))])))
            (take (nat n) hits) ! i = JObj ?e"
    by (rule nth)
  show "dict_get ?e ''path'' = Some (hit_field ''filename'' (JStr []) ?h)"
    by (simp add: dict_get_def)
  show "dict_get ?e ''score'' = Some (hit_field ''score'' (JInt 0) ?h)"
    by (simp add: dict_get_def)
  show "map fst ?e = [''path'', ''score'']" if "hit_matches ?h = []"
    using that by simp
  show "map fst ?e = [''path'', ''score'', ''snippets'']" if "hit_matches ?h \<noteq> []"
    using that by simp
  show "dict_get ?e ''snippets'' = Some (JList (map JStr ?ss))" if "hit_matches ?h \<noteq> []"
    using that by (simp add: dict_get_def)
  show "length ?ss = min 3 (length (hit_matches ?h))" if "hit_matches ?h \<noteq> []"
    by (rule ss(1))
  show "?ss ! j = take 200 (match_context (hit_matches ?h ! j))"
    if "hit_matches ?h \<noteq> []" and "j < length ?ss" for j
    using ss(2) that(2) by blast
  show "length (?ss ! j) \<le> 200" if "hit_matches ?h \<noteq> []" and "j < length ?ss" for j
    using ss(2) that(2) by blast
qed

theorem search_shaping_witness:
  "\<exists>entries.
     shape_search 10 (success (JList (replicate 50
        (JObj [(''filename'', JStr ''n.md''), (''score'', JInt 2),
               (''matches'', JList [JObj [(''context'', JStr ''abc'')]])]))))
       = Inr (success (JList entries))
     \<and> length entries = 10"
proof -
  let ?h = "JObj [(''filename'', JStr ''n.md''), (''score'', JInt 2),
                  (''matches'', JList [JObj [(''context'', JStr ''abc'')]])]"
  have "list_all is_hit (replicate 50 ?h)"
    by (simp add: list_all_iff is_hit_def is_match_def dict_get_def)
  from search_shaping [OF _ this, of 10] show ?thesis
    by auto
qed

text \<open>
  Claim C5 as stated fails for a negative maximum count: the slice
  \<^verbatim>\<open>result['data'][:-1]\<close> drops the last hit only, so two hits with the maximum -1
  give one entry, which is more than -1.
\<close>

theorem search_shaping_counterexample:
  "shape_search (- 1) (success (JList [JObj [(''filename'', JStr ''a.md'')],
                                        JObj [(''filename'', JStr ''b.md'')]]))
     = Inr (success (JList [JObj [(''path'', JStr ''a.md''), (''score'', JInt 0)]]))
   \<and> \<not> int (length [JObj [(''path'', JStr ''a.md''), (''score'', JInt 0)]]) \<le> - 1"
  by (simp add: shape_search_def success_simps py_slice_to_def simplify_item_def
      dict_get_default_def Let_def)

end
